theory Spec2Isabelle
  imports Complex_Main "HOL-Library.Extended_Nat" "HOL-Library.Log_Nat"
begin

section \<open>Numbers, truthiness and constants\<close>

text \<open>
  The agent is JavaScript: every numeric quantity is a \<open>number\<close>, an IEEE double. A
  number is modelled by the real it denotes; \<open>NaN\<close> and the infinities are not part of
  the model (the one place an infinite number matters, the default \<open>maxSockets\<close> of
  \<open>http.Agent\<close>, is an \<open>enat\<close>). \<open>Date.now()\<close> is a parameter \<open>now\<close> of every
  function that reads the clock; one call of a function reads one instant.
\<close>

type_synonym number = real

subsection \<open>Double arithmetic\<close>

text \<open>
  An arithmetic operation of the language yields the double nearest to the exact
  result, ties going to the double with an even significand. \<open>nearestDouble\<close> is that
  rounding: the exact value is scaled by the unit in the last place of its binade (53
  significant bits, and no finer than \<open>2 ^ -1074\<close>, where the subnormal numbers begin),
  rounded to an integer half-to-even, and scaled back. A result beyond the largest
  double is not turned into an infinity.
\<close>

definition roundHalfEven :: "real \<Rightarrow> int" where
  "roundHalfEven y =
     (let f = \<lfloor>y\<rfloor>; r = y - of_int f
      in if r < 1 / 2 then f else if 1 / 2 < r then f + 1 else if even f then f else f + 1)"

text \<open>The integer part of the binary logarithm of a positive real, from the bit length
  of its integer part (of the reciprocal's, below 1).\<close>

definition floorLog2 :: "real \<Rightarrow> int" where
  "floorLog2 x = (if 1 \<le> x then bitlen \<lfloor>x\<rfloor> - 1 else - bitlen (\<lceil>1 / x\<rceil> - 1))"

definition ulpExponent :: "real \<Rightarrow> int" where
  "ulpExponent x = max (floorLog2 \<bar>x\<bar> - 52) (- 1074)"

definition nearestDouble :: "real \<Rightarrow> real" where
  "nearestDouble x =
     (if x = 0 then 0
      else of_int (roundHalfEven (x / 2 powi ulpExponent x)) * 2 powi ulpExponent x)"

definition isDouble :: "real \<Rightarrow> bool" where
  "isDouble x \<longleftrightarrow> nearestDouble x = x"

text \<open>\<open>a + b\<close>, \<open>a - b\<close> and \<open>a * b\<close> of the language.\<close>

definition jsAdd :: "number \<Rightarrow> number \<Rightarrow> number" where
  "jsAdd a b = nearestDouble (a + b)"

definition jsSub :: "number \<Rightarrow> number \<Rightarrow> number" where
  "jsSub a b = nearestDouble (a - b)"

definition jsMul :: "number \<Rightarrow> number \<Rightarrow> number" where
  "jsMul a b = nearestDouble (a * b)"

text \<open>
  The rate recomputation of \<open>_changeRate\<close> works with the caller's fractional
  coefficients, weight and interval, and is written with these operations. The rest
  of the agent's arithmetic is written with the operations of the reals: its sums add
  whole numbers (a count and 1, buffer sizes, a clock reading in milliseconds and
  \<open>CLEANUP_TIME\<close>), which double arithmetic adds exactly, and the mean buffer size
  and the product \<open>maxBuffer * 7\<close> of the buffer gate are taken as the exact quotient
  and product.
\<close>

subsection \<open>Truthiness and constants\<close>

text \<open>\<open>a || b\<close> on numbers: \<open>0\<close> is the falsy number.\<close>

definition orElse :: "number \<Rightarrow> number \<Rightarrow> number" where
  "orElse a b = (if a = 0 then b else a)"

text \<open>A decimal literal of the source denotes the double nearest to it.\<close>

definition MAX_RATE :: number where "MAX_RATE = 1000000"
definition MIN_RATE :: number where "MIN_RATE = 1"
definition RATE_INTERVAL :: number where "RATE_INTERVAL = 1000"
definition RATE_LOWER_WEIGHT :: number where "RATE_LOWER_WEIGHT = 18"
definition RATE_LOWER_KOEF :: number where "RATE_LOWER_KOEF = nearestDouble 0.2"
definition RATE_RAISE_KOEF :: number where "RATE_RAISE_KOEF = nearestDouble 0.02"
definition MAX_PENDING :: number where "MAX_PENDING = 3000"
definition MAX_BUFFER :: number where "MAX_BUFFER = 50"
definition AVG_TIME :: number where "AVG_TIME = 400"
definition CLEANUP_TIME :: number where "CLEANUP_TIME = 60000"

section \<open>The rate limiter object\<close>

text \<open>
  \<open>RateLimiter\<close> is the class of the package \<open>@druide/rate-limiter\<close>. The agent reads
  and writes these fields of its instances directly.
\<close>

record rateLimiter =
  limit :: number
  interval :: number
  curIntervalStart :: number
  tokensThisInterval :: number
  incomingThisInterval :: number
  averageTime :: number

text \<open>
  \<open>_getLimiter\<close> attaches further fields to each instance it creates: the feedback
  tallies, the last target rate and its time, and the endpoint's name and flag.
\<close>

record limiter = rateLimiter +
  success :: number
  failed :: number
  lastRate :: number
  lastRateTime :: number
  name :: string
  flag :: string

text \<open>
  The class itself is not among the repository's files, so its constructor and its
  methods are a parameter of the agent's functions. A method works on the fields of
  the class and leaves the fields the agent attached as they are.
\<close>

record rateLimiterClass =
  rl_new :: "number \<Rightarrow> number \<Rightarrow> number \<Rightarrow> rateLimiter"
  rl_accept :: "number \<Rightarrow> number \<Rightarrow> rateLimiter \<Rightarrow> bool \<times> rateLimiter"
  rl_setLimit :: "number \<Rightarrow> rateLimiter \<Rightarrow> rateLimiter"
  rl_addTime :: "number \<Rightarrow> rateLimiter \<Rightarrow> rateLimiter"

text \<open>\<open>limiter.setLimit(v)\<close>, \<open>limiter.addTime(t)\<close> and \<open>limiter.accept(n)\<close> on an instance
  that carries the attached fields.\<close>

definition setLimit :: "rateLimiterClass \<Rightarrow> number \<Rightarrow> limiter \<Rightarrow> limiter" where
  "setLimit RL v l =
     rateLimiter.extend (rl_setLimit RL v (rateLimiter.truncate l)) (rateLimiter.more l)"

definition addTime :: "rateLimiterClass \<Rightarrow> number \<Rightarrow> limiter \<Rightarrow> limiter" where
  "addTime RL t l =
     rateLimiter.extend (rl_addTime RL t (rateLimiter.truncate l)) (rateLimiter.more l)"

definition accept :: "rateLimiterClass \<Rightarrow> number \<Rightarrow> number \<Rightarrow> limiter \<Rightarrow> bool \<times> limiter" where
  "accept RL n now l =
     (case rl_accept RL n now (rateLimiter.truncate l) of
        (ok, c) \<Rightarrow> (ok, rateLimiter.extend c (rateLimiter.more l)))"

subsection \<open>The limiter of the specification\<close>

text \<open>
  Modelled from the spec: the class \<open>RateLimiter\<close> of \<open>@druide/rate-limiter\<close>, which
  the agent imports and which is not among the source files. Section 4.1: \<open>accept(n)\<close>
  first rolls the interval over when it has elapsed (resetting accepted, incoming and
  the interval start), always adds \<open>n\<close> to incoming, and adds \<open>n\<close> to accepted iff
  \<open>accepted + n \<le> limit\<close>; \<open>setLimit(L)\<close> clamps \<open>L\<close> to \<open>[MIN_RATE, MAX_RATE]\<close> and
  installs it. Section 4.2: a new limiter has \<open>limit = min(target, MAX_RATE)\<close> and its
  counters at zero. The spec leaves the smoothing of \<open>addTime\<close> open; it is the
  parameter \<open>smooth\<close>, from the old average and the sample to the new average.
\<close>

definition spec_new :: "number \<Rightarrow> number \<Rightarrow> number \<Rightarrow> rateLimiter" where
  "spec_new lmt ival now =
     \<lparr> limit = min lmt MAX_RATE, interval = ival, curIntervalStart = now,
       tokensThisInterval = 0, incomingThisInterval = 0, averageTime = 0 \<rparr>"

definition spec_accept :: "number \<Rightarrow> number \<Rightarrow> rateLimiter \<Rightarrow> bool \<times> rateLimiter" where
  "spec_accept n now c =
     (let c1 = (if curIntervalStart c + interval c \<le> now
                then c\<lparr> tokensThisInterval := 0, incomingThisInterval := 0,
                        curIntervalStart := now \<rparr>
                else c);
          c2 = c1\<lparr> incomingThisInterval := incomingThisInterval c1 + n \<rparr>
      in if tokensThisInterval c2 + n \<le> limit c2
         then (True, c2\<lparr> tokensThisInterval := tokensThisInterval c2 + n \<rparr>)
         else (False, c2))"

definition spec_setLimit :: "number \<Rightarrow> rateLimiter \<Rightarrow> rateLimiter" where
  "spec_setLimit L c = c\<lparr> limit := max MIN_RATE (min MAX_RATE L) \<rparr>"

definition spec_addTime :: "(number \<Rightarrow> number \<Rightarrow> number) \<Rightarrow> number \<Rightarrow> rateLimiter \<Rightarrow> rateLimiter" where
  "spec_addTime smooth t c = c\<lparr> averageTime := smooth (averageTime c) t \<rparr>"

definition specRateLimiter :: "(number \<Rightarrow> number \<Rightarrow> number) \<Rightarrow> rateLimiterClass" where
  "specRateLimiter smooth =
     \<lparr> rl_new = spec_new, rl_accept = spec_accept, rl_setLimit = spec_setLimit,
       rl_addTime = spec_addTime smooth \<rparr>"

section \<open>The agent\<close>

text \<open>What \<open>http.Agent\<close> gives the mixin: the open sockets, the free sockets and the
  pending requests of each endpoint name, the socket limit, and \<open>getName\<close>.\<close>

record socket =
  bufferSize :: number
  destroyed :: bool

text \<open>\<open>request._events['error']\<close> as Node's \<open>EventEmitter\<close> keeps it: nothing until a
  listener is added, the listener function itself while there is one, an array of
  functions from the second on. Only the \<open>length\<close> of a function (the number of its
  declared parameters) matters here, so a function is that number.\<close>

datatype listeners = NoListeners | OneListener nat | ListenerArray "nat list"

text \<open>The \<open>code\<close> handed to the feedback: a status code, the code of an error, or
  \<open>undefined\<close>.\<close>

datatype code = Status number | ErrCode string | Undefined

record errorWithCode =
  message :: string
  errCode :: code

record request =
  events_error :: listeners
  aborted :: bool
  emitted :: "errorWithCode list"
  agentTimeout :: "number option"
  reqSocket :: "socket option"

text \<open>The \<open>info\<close> of a request: what \<open>getName\<close> makes the endpoint name from, the
  \<open>href\<close> of \<open>info.uri\<close> when there is one, and the timeout when one is given.\<close>

record info =
  endpoint :: string
  uri :: "string option"
  timeout :: "number option"

record httpAgent =
  sockets :: "string \<rightharpoonup> socket list"
  freeSockets :: "string \<rightharpoonup> socket list"
  requests :: "string \<rightharpoonup> request list"
  maxSockets :: enat
  getName :: "info \<Rightarrow> string"

record agent = httpAgent +
  rate :: number
  rateInterval :: number
  rateLowerWeight :: number
  rateLowerKoef :: number
  rateRaiseKoef :: number
  getRate :: "string \<Rightarrow> string \<Rightarrow> number"
  getFlag :: "string \<Rightarrow> string"
  maxPending :: number
  maxBuffer :: number
  checkBeforeRequest :: bool
  getRateDirection :: "code \<Rightarrow> httpAgent \<Rightarrow> limiter \<Rightarrow> number"
  rateLimiters :: "string \<rightharpoonup> limiter"
  lastCleanupTime :: number

subsection \<open>\<open>_changeRate\<close>\<close>

text \<open>Lines 284 to 289: the outcome is classified and tallied.\<close>

definition countOutcome :: "number \<Rightarrow> limiter \<Rightarrow> limiter" where
  "countOutcome dir l =
     (if dir = 1 then l\<lparr> success := success l + 1 \<rparr>
      else if dir = - 1 then l\<lparr> failed := failed l + 1 \<rparr>
      else l)"

text \<open>Lines 291 to 304: at a boundary of the rate interval the limit is recomputed
  from the tallies and the tallies start again. \<open>Math.floor\<close>, \<open>Math.max\<close> and
  \<open>Math.sign\<close> are exact.\<close>

definition recomputeRate :: "rateLimiterClass \<Rightarrow> agent \<Rightarrow> number \<Rightarrow> limiter \<Rightarrow> limiter" where
  "recomputeRate RL this now l =
     (if jsAdd (lastRateTime l) (rateInterval this) \<le> now then
        (let rate = orElse (getRate this (name l) (flag l)) MAX_RATE;
             l1 = l\<lparr> lastRateTime := now \<rparr>;
             diff = jsSub (success l1) (jsMul (failed l1) (rateLowerWeight this));
             l2 = (if diff \<noteq> 0 then
                     (let limitDiff = max (of_int \<lfloor>jsMul (limit l1)
                            (if diff < 0 then rateLowerKoef this else rateRaiseKoef this)\<rfloor>) 1;
                          lmt = jsAdd (limit l1) (jsMul (sgn diff) limitDiff);
                          lmt = (if lmt > rate then rate else lmt);
                          lmt = (if lmt < MIN_RATE then MIN_RATE else lmt)
                      in setLimit RL lmt l1)
                   else l1)
         in l2\<lparr> success := 0, failed := 0 \<rparr>)
      else l)"

definition priv_changeRate :: "rateLimiterClass \<Rightarrow> agent \<Rightarrow> number \<Rightarrow> code \<Rightarrow> limiter \<Rightarrow> limiter" where
  "priv_changeRate RL this now c l =
     recomputeRate RL this now
       (countOutcome (getRateDirection this c (httpAgent.truncate this) l) l)"

subsection \<open>The constructor\<close>

text \<open>The options of the constructor; an option that is not given is \<open>None\<close>.\<close>

record options =
  opt_rate :: "number option"
  opt_rateInterval :: "number option"
  opt_rateLowerWeight :: "number option"
  opt_rateLowerKoef :: "number option"
  opt_rateRaiseKoef :: "number option"
  opt_getRate :: "(string \<Rightarrow> string \<Rightarrow> number) option"
  opt_getFlag :: "(string \<Rightarrow> string) option"
  opt_maxPending :: "number option"
  opt_maxBuffer :: "number option"
  opt_checkBeforeRequest :: "bool option"
  opt_getRateDirection :: "(code \<Rightarrow> httpAgent \<Rightarrow> limiter \<Rightarrow> number) option"

text \<open>\<open>options.x || d\<close> for a numeric option, and for a callback.\<close>

definition numberOr :: "number option \<Rightarrow> number \<Rightarrow> number" where
  "numberOr x d = (case x of None \<Rightarrow> d | Some v \<Rightarrow> orElse v d)"

definition callbackOr :: "'f option \<Rightarrow> 'f \<Rightarrow> 'f" where
  "callbackOr x d = (case x of None \<Rightarrow> d | Some f \<Rightarrow> f)"

text \<open>Lines 86 to 93: the default classification of an outcome.\<close>

definition defaultRateDirection :: "code \<Rightarrow> httpAgent \<Rightarrow> limiter \<Rightarrow> number" where
  "defaultRateDirection c ag l =
     (let byCode = (case c of Status n \<Rightarrow> if 200 \<le> n \<and> n < 400 then 1 else - 1
                    | ErrCode _ \<Rightarrow> - 1
                    | Undefined \<Rightarrow> - 1);
          byQueue = (case requests ag (name l) of
                       None \<Rightarrow> byCode
                     | Some rs \<Rightarrow> if length rs > 1000 then - 1 else byCode)
      in case sockets ag (name l) of
           None \<Rightarrow> 1
         | Some ss \<Rightarrow> if maxSockets ag - enat (length ss) > 0 then 1 else byQueue)"

definition constructor :: "options \<Rightarrow> httpAgent \<Rightarrow> number \<Rightarrow> agent" where
  "constructor opts base now =
     (let r = numberOr (opt_rate opts) MAX_RATE in
      httpAgent.extend base
        (agent.fields
           r
           (numberOr (opt_rateInterval opts) RATE_INTERVAL)
           (numberOr (opt_rateLowerWeight opts) RATE_LOWER_WEIGHT)
           (numberOr (opt_rateLowerKoef opts) RATE_LOWER_KOEF)
           (numberOr (opt_rateRaiseKoef opts) RATE_RAISE_KOEF)
           (callbackOr (opt_getRate opts) (\<lambda>_ _. r))
           (callbackOr (opt_getFlag opts) (\<lambda>_. []))
           (numberOr (opt_maxPending opts) MAX_PENDING)
           (numberOr (opt_maxBuffer opts) MAX_BUFFER)
           (case opt_checkBeforeRequest opts of None \<Rightarrow> False | Some b \<Rightarrow> b)
           (callbackOr (opt_getRateDirection opts) defaultRateDirection)
           Map.empty
           now))"

subsection \<open>\<open>_getLimiter\<close>\<close>

text \<open>The registry is the field \<open>rateLimiters\<close>; a function that changes it returns the
  agent with the new registry. A limiter object is reached only through the registry
  here, so an object changed in place is stored back under its key.\<close>

definition store :: "string \<Rightarrow> limiter \<Rightarrow> agent \<Rightarrow> agent" where
  "store key l this = this\<lparr> rateLimiters := (rateLimiters this)(key \<mapsto> l) \<rparr>"

definition priv_getLimiter :: "rateLimiterClass \<Rightarrow> agent \<Rightarrow> number \<Rightarrow> string \<Rightarrow> string \<Rightarrow> limiter \<times> agent" where
  "priv_getLimiter RL this now nm flg =
     (let key = nm @ (if flg = [] then [] else flg);
          rate = orElse (getRate this nm flg) MAX_RATE;
          l0 = (case rateLimiters this key of
                  None \<Rightarrow>
                    rateLimiter.extend (rl_new RL rate (rateInterval this) now)
                      (limiter.fields 0 0 rate now nm flg)
                | Some l \<Rightarrow> l);
          l1 = (if lastRate l0 \<noteq> rate
                then setLimit RL (min (limit l0) rate) (l0\<lparr> lastRate := rate \<rparr>)
                else l0)
      in (l1, store key l1 this))"

subsection \<open>\<open>_canAcceptRequest\<close> and \<open>canAcceptRequest\<close>\<close>

text \<open>Lines 120 and 121, again at 137 and 138: what a preventive rejection counts.\<close>

definition countRejected :: "bool \<Rightarrow> limiter \<Rightarrow> limiter" where
  "countRejected withFailed l =
     (let l1 = l\<lparr> incomingThisInterval := incomingThisInterval l + 1 \<rparr>
      in if withFailed then l1\<lparr> failed := failed l1 + 1 \<rparr> else l1)"

text \<open>The loop of lines 132 to 135 over the open sockets, with its two accumulators.\<close>

fun bufferLoop :: "socket list \<Rightarrow> number \<times> number \<Rightarrow> number \<times> number" where
  "bufferLoop [] (bSize, bCount) = (bSize, bCount)"
| "bufferLoop (s # ss) (bSize, bCount) = bufferLoop ss (bSize + bufferSize s, bCount + 1)"

definition priv_canAcceptRequest ::
  "rateLimiterClass \<Rightarrow> agent \<Rightarrow> number \<Rightarrow> string \<Rightarrow> string \<Rightarrow> bool \<Rightarrow> bool \<times> agent" where
  "priv_canAcceptRequest RL this0 now nm flg withFailed =
     (case priv_getLimiter RL this0 now nm flg of
        (l, this) \<Rightarrow>
          (let key = nm @ (if flg = [] then [] else flg) in
           if (case requests this nm of
                 None \<Rightarrow> False
               | Some rs \<Rightarrow> real (length rs) \<ge> maxPending this)
           then (False, store key (countRejected withFailed l) this)
           else if tokensThisInterval l \<noteq> 0 \<and>
                   (case sockets this nm of
                      None \<Rightarrow> False
                    | Some ss \<Rightarrow>
                        (let maxBuf = (if averageTime l < AVG_TIME
                                       then maxBuffer this * 7 else maxBuffer this)
                         in case bufferLoop ss (0, 0) of
                              (bSize, bCount) \<Rightarrow> bCount \<noteq> 0 \<and> bSize / bCount > maxBuf))
           then (False, store key (countRejected withFailed l) this)
           else (case accept RL 1 now l of
                   (ok, l') \<Rightarrow> (ok, store key l' this))))"

text \<open>\<open>Url.parse\<close> belongs to Node; it is the parameter \<open>parse\<close>. Of its result the
  agent reads \<open>hostname\<close> and \<open>port\<close>, each a string or \<open>null\<close>; \<open>null\<close> prints as
  \<open>null\<close> in a concatenation, and \<open>port || 80\<close> takes 80 for \<open>null\<close> and for the empty
  string.\<close>

record url =
  protocol :: "string option"
  hostname :: "string option"
  port :: "string option"

definition canAcceptRequest ::
  "rateLimiterClass \<Rightarrow> (string \<Rightarrow> url) \<Rightarrow> agent \<Rightarrow> number \<Rightarrow> string \<Rightarrow> bool \<times> agent" where
  "canAcceptRequest RL parse this now u =
     (if \<not> checkBeforeRequest this then (True, this)
      else
        (let parsed = parse u;
             nm = (case hostname parsed of None \<Rightarrow> ''null'' | Some h \<Rightarrow> h) @ '':'' @
                  (case port parsed of
                     None \<Rightarrow> ''80''
                   | Some p \<Rightarrow> if p = [] then ''80'' else p) @ '':'';
             flg = getFlag this u
         in priv_canAcceptRequest RL this now nm flg True))"

subsection \<open>\<open>addRequest\<close> and the events of a request\<close>

text \<open>\<open>errorListeners && errorListeners.length\<close>.\<close>

fun hasLength :: "listeners \<Rightarrow> bool" where
  "hasLength NoListeners = False"
| "hasLength (OneListener arity) = (arity \<noteq> 0)"
| "hasLength (ListenerArray fs) = (length fs \<noteq> 0)"

text \<open>What \<open>addRequest\<close> leaves behind: whether the request went on to
  \<open>super.addRequest\<close>, the request, the agent, and for a request that went on the
  limiter and the start time its three handlers are closed over.\<close>

record added =
  forwarded :: bool
  a_request :: request
  a_agent :: agent
  a_limiter :: "limiter option"
  a_startTime :: "number option"

definition addRequest :: "rateLimiterClass \<Rightarrow> agent \<Rightarrow> number \<Rightarrow> request \<Rightarrow> info \<Rightarrow> added" where
  "addRequest RL this0 now request nfo =
     (let nm = getName this0 nfo;
          flg = getFlag this0 (case uri nfo of Some h \<Rightarrow> h | None \<Rightarrow> []);
          checked = (if \<not> checkBeforeRequest this0
                     then priv_canAcceptRequest RL this0 now nm flg False
                     else (True, this0))
      in case checked of
           (ok, this1) \<Rightarrow>
             if \<not> ok then
               (let r1 = request\<lparr> aborted := True \<rparr>;
                    r2 = (if hasLength (events_error r1)
                          then r1\<lparr> emitted := emitted r1 @
                                 [\<lparr> message = ''429 Too Many Requests'', errCode = Status 429 \<rparr>] \<rparr>
                          else r1)
                in \<lparr> forwarded = False, a_request = r2, a_agent = this1, a_limiter = None,
                     a_startTime = None \<rparr>)
             else
               (case priv_getLimiter RL this1 now nm flg of
                  (l, this2) \<Rightarrow>
                    (let r1 = (case timeout nfo of
                                 None \<Rightarrow> request
                               | Some t \<Rightarrow> if t = 0 then request
                                           else request\<lparr> agentTimeout := Some t \<rparr>)
                     in \<lparr> forwarded = True, a_request = r1, a_agent = this2, a_limiter = Some l,
                          a_startTime = Some now \<rparr>)))"

text \<open>The events a request emits, with what the handlers read of them:
  \<open>response.statusCode\<close> and \<open>err.code\<close>.\<close>

datatype event = Response number | Error code | Abort

definition clearAgentTimeout :: "request \<Rightarrow> request" where
  "clearAgentTimeout r = (case agentTimeout r of None \<Rightarrow> r | Some _ \<Rightarrow> r\<lparr> agentTimeout := None \<rparr>)"

text \<open>A request the agent forwarded, the limiter object its handlers hold, and the
  arguments of the \<open>_changeRate\<close> calls made for it so far (kept only to say how often
  the feedback is notified).\<close>

record tracked =
  t_request :: request
  t_limiter :: limiter
  t_calls :: "code list"

text \<open>Lines 179 to 190: the three handlers. \<open>st\<close> is the start time they are closed
  over, \<open>this\<close> the agent and \<open>now\<close> the clock when the event arrives.\<close>

fun handleEvent :: "rateLimiterClass \<Rightarrow> number \<Rightarrow> agent \<Rightarrow> number \<Rightarrow> event \<Rightarrow> tracked \<Rightarrow> tracked" where
  "handleEvent RL st this now (Response statusCode) t =
     t\<lparr> t_request := clearAgentTimeout (t_request t),
        t_limiter := priv_changeRate RL this now (Status statusCode)
                       (addTime RL (now - st) (t_limiter t)),
        t_calls := t_calls t @ [Status statusCode] \<rparr>"
| "handleEvent RL st this now (Error errcode) t =
     t\<lparr> t_request := clearAgentTimeout (t_request t),
        t_limiter := priv_changeRate RL this now errcode
                       (addTime RL (now - st) (t_limiter t)),
        t_calls := t_calls t @ [errcode] \<rparr>"
| "handleEvent RL st this now Abort t =
     t\<lparr> t_request :=
          (let r = clearAgentTimeout (t_request t)
           in case reqSocket r of
                None \<Rightarrow> r
              | Some s \<Rightarrow> r\<lparr> reqSocket := Some (s\<lparr> destroyed := True \<rparr>) \<rparr>) \<rparr>"

text \<open>The events of one request in the order they arrive, each with the agent and
  the clock of its arrival.\<close>

fun deliver :: "rateLimiterClass \<Rightarrow> number \<Rightarrow> (agent \<times> number \<times> event) list \<Rightarrow> tracked \<Rightarrow> tracked" where
  "deliver RL st [] t = t"
| "deliver RL st ((this, now, ev) # evs) t = deliver RL st evs (handleEvent RL st this now ev t)"

subsection \<open>\<open>removeSocket\<close> and \<open>_cleanup\<close>\<close>

text \<open>\<open>!xs || !xs.length\<close> for an entry of one of the transport's tables.\<close>

definition noEntries :: "'a list option \<Rightarrow> bool" where
  "noEntries x = (case x of None \<Rightarrow> True | Some xs \<Rightarrow> length xs = 0)"

text \<open>The sweep visits every key of the registry and decides it from the limiter
  stored there and the transport's tables alone, so the registry after the sweep is
  given key by key.\<close>

definition priv_cleanup :: "agent \<Rightarrow> number \<Rightarrow> agent" where
  "priv_cleanup this now =
     this\<lparr> lastCleanupTime := now,
           rateLimiters := (\<lambda>key.
             case rateLimiters this key of
               None \<Rightarrow> None
             | Some l \<Rightarrow>
                 if curIntervalStart l + CLEANUP_TIME < now \<and>
                    noEntries (sockets this (name l)) \<and>
                    noEntries (freeSockets this (name l)) \<and>
                    noEntries (requests this (name l))
                 then None else Some l) \<rparr>"

text \<open>The agent's part of \<open>removeSocket\<close>; the rest is \<open>super.removeSocket\<close>.\<close>

definition removeSocket :: "agent \<Rightarrow> number \<Rightarrow> agent" where
  "removeSocket this now =
     (if lastCleanupTime this + CLEANUP_TIME < now then priv_cleanup this now else this)"

section \<open>Scenarios\<close>

text \<open>\<open>new Agent({})\<close>: no option is given.\<close>

definition noOptions :: options where
  "noOptions = \<lparr> opt_rate = None, opt_rateInterval = None, opt_rateLowerWeight = None,
     opt_rateLowerKoef = None, opt_rateRaiseKoef = None, opt_getRate = None, opt_getFlag = None,
     opt_maxPending = None, opt_maxBuffer = None, opt_checkBeforeRequest = None,
     opt_getRateDirection = None \<rparr>"

text \<open>A smoothing for the limiter of the specification: the mean of the old average
  and the sample.\<close>

definition halfSmooth :: "number \<Rightarrow> number \<Rightarrow> number" where
  "halfSmooth old t = (old + t) / 2"

text \<open>Scenario S2: one endpoint whose single permitted socket is in use, and its
  limiter at limit 100 with ten successes and four failures tallied when a fifth
  request fails as the rate interval ends.\<close>

definition busyBase :: httpAgent where
  "busyBase = \<lparr> sockets = [''h:80:'' \<mapsto> [\<lparr> bufferSize = 0, destroyed = False \<rparr>]],
     freeSockets = Map.empty, requests = Map.empty, maxSockets = 1, getName = endpoint \<rparr>"


text \<open>A limiter whose tallies balance once one more failure is counted:
  \<open>18 - 1 * 18 = 0\<close>.\<close>

definition s8Limiter :: limiter where
  "s8Limiter = \<lparr> limit = 100, interval = 1000, curIntervalStart = 0, tokensThisInterval = 19,
     incomingThisInterval = 19, averageTime = 0, success = 18, failed = 0, lastRate = 1000000,
     lastRateTime = 0, name = ''h:80:'', flag = [] \<rparr>"

text \<open>An agent with nothing open and no limit on sockets, whose \<open>getRate\<close> callback
  answers \<open>r\<close> at the moment in question; every other option has its default.\<close>

definition freeBase :: httpAgent where
  "freeBase = \<lparr> sockets = Map.empty, freeSockets = Map.empty, requests = Map.empty,
     maxSockets = \<infinity>, getName = endpoint \<rparr>"

definition agentWithRate :: "number \<Rightarrow> agent" where
  "agentWithRate r = constructor (noOptions\<lparr> opt_getRate := Some (\<lambda>_ _. r) \<rparr>) freeBase 0"

text \<open>Scenario S6: a limiter running at limit 80 under a target of 100.\<close>

definition s6Limiter :: limiter where
  "s6Limiter = \<lparr> limit = 80, interval = 1000, curIntervalStart = 0, tokensThisInterval = 0,
     incomingThisInterval = 0, averageTime = 0, success = 0, failed = 0, lastRate = 100,
     lastRateTime = 0, name = ''h:80:'', flag = [] \<rparr>"

text \<open>A target that rises and comes back: the limiter is created under a target of
  100; an interval later a response with status 200 is fed back while \<open>getRate\<close>
  answers 200; then the limiter is fetched again, \<open>getRate\<close> answering 100 as before.\<close>

definition raisedThenRestored :: "limiter \<times> agent" where
  "raisedThenRestored =
     (let S = specRateLimiter halfSmooth;
          created = fst (priv_getLimiter S (agentWithRate 100) 0 ''h:80:'' []);
          raised = priv_changeRate S (agentWithRate 200) 1000 (Status 200) created
      in priv_getLimiter S (store ''h:80:'' raised (agentWithRate 100)) 1001 ''h:80:'' [])"




text \<open>Scenario S3: \<open>maxPending = 3\<close> and \<open>n\<close> requests pending for the endpoint, which
  has no limiter yet; \<open>freshLimiter\<close> is the one the limiter of the specification
  makes at time 0 under the default target.\<close>

definition pendingRequest :: request where
  "pendingRequest = \<lparr> events_error = NoListeners, aborted = False, emitted = [],
     agentTimeout = None, reqSocket = None \<rparr>"

definition s3Agent :: "nat \<Rightarrow> agent" where
  "s3Agent n = constructor (noOptions\<lparr> opt_maxPending := Some 3 \<rparr>)
     (freeBase\<lparr> requests := [''h:80:'' \<mapsto> replicate n pendingRequest] \<rparr>) 0"

definition freshLimiter :: limiter where
  "freshLimiter = \<lparr> limit = 1000000, interval = 1000, curIntervalStart = 0, tokensThisInterval = 0,
     incomingThisInterval = 0, averageTime = 0, success = 0, failed = 0, lastRate = 1000000,
     lastRateTime = 0, name = ''h:80:'', flag = [] \<rparr>"

text \<open>A pre-check of an https URL without a port: what \<open>Url.parse\<close> makes of it, and
  an agent with \<open>checkBeforeRequest\<close> on.\<close>

definition httpsParse :: "string \<Rightarrow> url" where
  "httpsParse u =
     (if u = ''https://example.com/path''
      then \<lparr> protocol = Some ''https:'', hostname = Some ''example.com'', port = None \<rparr>
      else \<lparr> protocol = None, hostname = None, port = None \<rparr>)"

definition precheckAgent :: agent where
  "precheckAgent = constructor (noOptions\<lparr> opt_checkBeforeRequest := Some True \<rparr>) freeBase 0"

text \<open>Scenario S5: limiters for two endpoints, both last used at time 0; \<open>h1\<close> has
  nothing in the transport, \<open>h\<close> has an open socket.\<close>

definition s5Limiter :: "string \<Rightarrow> limiter" where
  "s5Limiter nm = \<lparr> limit = 100, interval = 1000, curIntervalStart = 0, tokensThisInterval = 1,
     incomingThisInterval = 1, averageTime = 0, success = 0, failed = 0, lastRate = 1000000,
     lastRateTime = 0, name = nm, flag = [] \<rparr>"

definition s5Agent :: agent where
  "s5Agent = store ''h1:80:'' (s5Limiter ''h1:80:'')
     (store ''h:80:'' (s5Limiter ''h:80:'') (constructor noOptions busyBase 0))"

text \<open>A request to the endpoint of the scenarios, with a timeout of 500 ms; the error
  of a rejection; a submission rejected at the full queue of scenario S3, by a request
  whose \<open>_events['error']\<close> is \<open>ls\<close>; and a submission that is admitted and
  forwarded, with the state its handlers start from.\<close>

definition plainInfo :: info where
  "plainInfo = \<lparr> endpoint = ''h:80:'', uri = None, timeout = Some 500 \<rparr>"

definition tooManyRequests :: errorWithCode where
  "tooManyRequests = \<lparr> message = ''429 Too Many Requests'', errCode = Status 429 \<rparr>"

definition rejectedWith :: "listeners \<Rightarrow> added" where
  "rejectedWith ls =
     addRequest (specRateLimiter halfSmooth) (s3Agent 3) 0
       (pendingRequest\<lparr> events_error := ls \<rparr>) plainInfo"

definition submitted :: added where
  "submitted = addRequest (specRateLimiter halfSmooth) (agentWithRate 100) 0 pendingRequest plainInfo"

definition submittedTracked :: tracked where
  "submittedTracked =
     \<lparr> t_request = a_request submitted,
       t_limiter = (case a_limiter submitted of Some l \<Rightarrow> l | None \<Rightarrow> freshLimiter),
       t_calls = [] \<rparr>"



definition nearCapLimiter :: limiter where
  "nearCapLimiter = \<lparr> limit = 990000, interval = 1000, curIntervalStart = 0, tokensThisInterval = 1,
     incomingThisInterval = 1, averageTime = 0, success = 0, failed = 0, lastRate = 1000000,
     lastRateTime = 0, name = ''h:80:'', flag = [] \<rparr>"


section \<open>Properties\<close>

lemmas consts_defs = MAX_RATE_def MIN_RATE_def RATE_INTERVAL_def RATE_LOWER_WEIGHT_def RATE_LOWER_KOEF_def
  RATE_RAISE_KOEF_def MAX_PENDING_def MAX_BUFFER_def AVG_TIME_def CLEANUP_TIME_def


text \<open>Evaluating the rounding at a numeral: the definitions unfold, \<open>compute_bitlen\<close>
  counts the bits.\<close>

lemmas double_eval = nearestDouble_def ulpExponent_def floorLog2_def roundHalfEven_def
  compute_bitlen Let_def

lemma nearestDouble_zero: "nearestDouble 0 = 0"
  by (simp add: nearestDouble_def)

lemma jsAdd_exact: "isDouble (a + b) \<Longrightarrow> jsAdd a b = a + b"
  by (simp add: jsAdd_def isDouble_def)

lemma jsDiff_exact:
  assumes "isDouble s" and "s - f * w = 0"
  shows "jsSub s (jsMul f w) = 0"
proof -
  have "f * w = s" using assms(2) by simp
  then have "jsMul f w = s" using assms(1) by (simp add: jsMul_def isDouble_def)
  then show ?thesis by (simp add: jsSub_def nearestDouble_zero)
qed

lemma double_literals:
  "nearestDouble 0.2 = 3602879701896397 / 18014398509481984"
  "nearestDouble 0.02 = 5764607523034235 / 288230376151711744"
  "nearestDouble 0.03 = 1080863910568919 / 36028797018963968"
  "nearestDouble 0.29 = 5224175567749775 / 18014398509481984"
  by (simp_all add: double_eval)

lemma constructor_base:
  "httpAgent.truncate (constructor opts base now) = base"
  "sockets (constructor opts base now) = sockets base"
  "freeSockets (constructor opts base now) = freeSockets base"
  "requests (constructor opts base now) = requests base"
  "maxSockets (constructor opts base now) = maxSockets base"
  "getName (constructor opts base now) = getName base"
  by (simp_all add: constructor_def Let_def httpAgent.defs agent.defs)

lemma constructor_noOptions:
  "rate (constructor noOptions base now) = 1000000"
  "rateInterval (constructor noOptions base now) = 1000"
  "rateLowerWeight (constructor noOptions base now) = 18"
  "rateLowerKoef (constructor noOptions base now) = nearestDouble 0.2"
  "rateRaiseKoef (constructor noOptions base now) = nearestDouble 0.02"
  "getRate (constructor noOptions base now) = (\<lambda>_ _. 1000000)"
  "getFlag (constructor noOptions base now) = (\<lambda>_. [])"
  "maxPending (constructor noOptions base now) = 3000"
  "maxBuffer (constructor noOptions base now) = 50"
  "checkBeforeRequest (constructor noOptions base now) = False"
  "getRateDirection (constructor noOptions base now) = defaultRateDirection"
  "rateLimiters (constructor noOptions base now) = Map.empty"
  "lastCleanupTime (constructor noOptions base now) = now"
  by (simp_all add: constructor_def Let_def noOptions_def numberOr_def callbackOr_def orElse_def
        consts_defs httpAgent.defs agent.defs)




lemma clamp_if: "(if (if x > r then r else x) < (m::real) then m else (if x > r then r else x)) = max m (min r x)"
  by (simp add: max_def min_def)

lemma recomputeRate_boundary:
  assumes "jsAdd (lastRateTime l) (rateInterval this) \<le> now"
    and "jsSub (success l) (jsMul (failed l) (rateLowerWeight this)) \<noteq> 0"
  shows "recomputeRate RL this now l =
     (setLimit RL
        (max MIN_RATE (min (orElse (getRate this (name l) (flag l)) MAX_RATE)
           (jsAdd (limit l)
              (jsMul (sgn (jsSub (success l) (jsMul (failed l) (rateLowerWeight this))))
                 (max (of_int \<lfloor>jsMul (limit l)
                         (if jsSub (success l) (jsMul (failed l) (rateLowerWeight this)) < 0
                          then rateLowerKoef this else rateRaiseKoef this)\<rfloor>) 1)))))
        (l\<lparr> lastRateTime := now \<rparr>))\<lparr> success := 0, failed := 0 \<rparr>"
  unfolding recomputeRate_def Let_def clamp_if
  using assms by simp

lemma changeRate_eval:
  assumes "countOutcome (getRateDirection this c (httpAgent.truncate this) l) l = l1"
    and "jsAdd (lastRateTime l1) (rateInterval this) \<le> now"
    and "jsSub (success l1) (jsMul (failed l1) (rateLowerWeight this)) = diff"
    and "diff \<noteq> 0"
    and "orElse (getRate this (name l1) (flag l1)) MAX_RATE = target"
    and "max (of_int \<lfloor>jsMul (limit l1)
                (if diff < 0 then rateLowerKoef this else rateRaiseKoef this)\<rfloor>) 1 = step"
    and "max MIN_RATE (min target (jsAdd (limit l1) (jsMul (sgn diff) step))) = v"
  shows "priv_changeRate RL this now c l =
           (setLimit RL v (l1\<lparr> lastRateTime := now \<rparr>))\<lparr> success := 0, failed := 0 \<rparr>"
proof -
  have nz: "jsSub (success l1) (jsMul (failed l1) (rateLowerWeight this)) \<noteq> 0"
    using assms(3,4) by simp
  have "priv_changeRate RL this now c l = recomputeRate RL this now l1"
    unfolding priv_changeRate_def assms(1) ..
  also have "\<dots> = (setLimit RL v (l1\<lparr> lastRateTime := now \<rparr>))\<lparr> success := 0, failed := 0 \<rparr>"
    unfolding recomputeRate_boundary [OF assms(2) nz] assms(3) assms(5) assms(6) assms(7) ..
  finally show ?thesis .
qed

lemma spec_setLimit_in_range:
  assumes "MIN_RATE \<le> v" and "v \<le> MAX_RATE"
  shows "setLimit (specRateLimiter smooth) v l = l\<lparr> limit := v \<rparr>"
  using assms
  by (cases l) (simp add: setLimit_def specRateLimiter_def spec_setLimit_def rateLimiter.defs)







lemma setLimit_frame:
  "success (setLimit RL v l) = success l"
  "failed (setLimit RL v l) = failed l"
  "lastRate (setLimit RL v l) = lastRate l"
  "lastRateTime (setLimit RL v l) = lastRateTime l"
  "name (setLimit RL v l) = name l"
  "flag (setLimit RL v l) = flag l"
  by (cases l, simp add: setLimit_def rateLimiter.defs)+

lemma recomputeRate_resets:
  assumes "jsAdd (lastRateTime l) (rateInterval this) \<le> now"
  shows "success (recomputeRate RL this now l) = 0"
    and "failed (recomputeRate RL this now l) = 0"
    and "lastRateTime (recomputeRate RL this now l) = now"
  using assms by (simp_all add: recomputeRate_def Let_def setLimit_frame)

lemma recomputeRate_diff_zero:
  assumes "jsAdd (lastRateTime l) (rateInterval this) \<le> now"
    and "jsSub (success l) (jsMul (failed l) (rateLowerWeight this)) = 0"
  shows "recomputeRate RL this now l = l\<lparr> lastRateTime := now, success := 0, failed := 0 \<rparr>"
  using assms by (simp add: recomputeRate_def Let_def)

text \<open>
  C8. At every rate-adjustment boundary \<open>success\<close> and \<open>failed\<close> are zero and
  \<open>lastRateTime\<close> is \<open>now\<close> afterwards, whatever \<open>diff\<close> is; and when
  \<open>diff = success - failed * rateLowerWeight\<close> is zero nothing else changes: the result is
  the tallied limiter with these three fields set, the same for every limiter class
  (no \<open>setLimit\<close> call), and \<open>limit\<close> is what it was. The boundary is the one the code
  tests, the double sum \<open>lastRateTime + rateInterval\<close> being at most \<open>now\<close>, which every
  exact boundary with a sum that is a double is; \<open>diff\<close> is zero as the code computes
  it, which every exact zero with a \<open>success\<close> that is a double is.
\<close>

theorem changeRate_boundary_resets:
  assumes "l1 = countOutcome (getRateDirection this c (httpAgent.truncate this) l) l"
    and "jsAdd (lastRateTime l1) (rateInterval this) \<le> now
         \<or> isDouble (lastRateTime l1 + rateInterval this)
             \<and> lastRateTime l1 + rateInterval this \<le> now"
  shows "success (priv_changeRate RL this now c l) = 0
       \<and> failed (priv_changeRate RL this now c l) = 0
       \<and> lastRateTime (priv_changeRate RL this now c l) = now
       \<and> (jsSub (success l1) (jsMul (failed l1) (rateLowerWeight this)) = 0
            \<or> isDouble (success l1) \<and> success l1 - failed l1 * rateLowerWeight this = 0 \<longrightarrow>
            priv_changeRate RL this now c l = l1\<lparr> lastRateTime := now, success := 0, failed := 0 \<rparr>
            \<and> limit (priv_changeRate RL this now c l) = limit l)"
proof -
  have step: "priv_changeRate RL this now c l = recomputeRate RL this now l1"
    unfolding priv_changeRate_def assms(1) ..
  have lim: "limit l1 = limit l"
    unfolding assms(1) by (simp add: countOutcome_def)
  have b: "jsAdd (lastRateTime l1) (rateInterval this) \<le> now"
    using assms(2) jsAdd_exact [of "lastRateTime l1" "rateInterval this"] by auto
  have z: "jsSub (success l1) (jsMul (failed l1) (rateLowerWeight this)) = 0"
    if "jsSub (success l1) (jsMul (failed l1) (rateLowerWeight this)) = 0
        \<or> isDouble (success l1) \<and> success l1 - failed l1 * rateLowerWeight this = 0"
    using that jsDiff_exact [of "success l1" "failed l1" "rateLowerWeight this"] by auto
  show ?thesis
    unfolding step
    using recomputeRate_resets [OF b] recomputeRate_diff_zero [OF b z] lim
    by simp
qed

theorem changeRate_boundary_resets_witness:
  "lastRateTime (s8Limiter\<lparr> failed := 1 \<rparr>) + rateInterval (constructor noOptions busyBase 0) \<le> 1000
   \<and> isDouble (lastRateTime (s8Limiter\<lparr> failed := 1 \<rparr>) + rateInterval (constructor noOptions busyBase 0))
   \<and> success (s8Limiter\<lparr> failed := 1 \<rparr>)
       - failed (s8Limiter\<lparr> failed := 1 \<rparr>) * rateLowerWeight (constructor noOptions busyBase 0) = 0
   \<and> isDouble (success (s8Limiter\<lparr> failed := 1 \<rparr>))
   \<and> priv_changeRate (specRateLimiter halfSmooth) (constructor noOptions busyBase 0) 1000
        (ErrCode ''ETIMEDOUT'') s8Limiter
      = s8Limiter\<lparr> lastRateTime := 1000, success := 0, failed := 0 \<rparr>
   \<and> limit (priv_changeRate (specRateLimiter halfSmooth) (constructor noOptions busyBase 0) 1000
        (ErrCode ''ETIMEDOUT'') s8Limiter) = 100"
proof -
  let ?ag = "constructor noOptions busyBase 0"
  let ?l1 = "s8Limiter\<lparr> failed := 1 \<rparr>"
  note cfg = constructor_noOptions constructor_base
  have dir: "defaultRateDirection (ErrCode ''ETIMEDOUT'') busyBase s8Limiter = - 1"
    by (simp add: defaultRateDirection_def busyBase_def s8Limiter_def flip: One_nat_def one_enat_def)
  have 1: "?l1 = countOutcome (getRateDirection ?ag (ErrCode ''ETIMEDOUT'') (httpAgent.truncate ?ag) s8Limiter) s8Limiter"
    unfolding cfg dir by (simp add: countOutcome_def s8Limiter_def)
  have d1: "isDouble 1000" and d2: "isDouble 18"
    by (simp_all add: isDouble_def double_eval)
  have 2: "lastRateTime ?l1 + rateInterval ?ag \<le> 1000"
    and s2: "isDouble (lastRateTime ?l1 + rateInterval ?ag)"
    unfolding cfg using d1 by (simp_all add: s8Limiter_def)
  have 3: "success ?l1 - failed ?l1 * rateLowerWeight ?ag = 0"
    and s3: "isDouble (success ?l1)"
    unfolding cfg using d2 by (simp_all add: s8Limiter_def)
  from changeRate_boundary_resets [OF 1, of 1000 "specRateLimiter halfSmooth"] 2 s2 3 s3
  have "priv_changeRate (specRateLimiter halfSmooth) ?ag 1000 (ErrCode ''ETIMEDOUT'') s8Limiter
          = ?l1\<lparr> lastRateTime := 1000, success := 0, failed := 0 \<rparr>"
    and "limit (priv_changeRate (specRateLimiter halfSmooth) ?ag 1000 (ErrCode ''ETIMEDOUT'') s8Limiter)
          = limit s8Limiter"
    by blast+
  then show ?thesis using 2 s2 3 s3 by (simp add: s8Limiter_def)
qed


lemma key_flag: "nm @ (if flg = [] then [] else flg) = nm @ flg"
  by simp

lemma getLimiter_create:
  assumes "rateLimiters this (nm @ flg) = None"
    and "l = rateLimiter.extend
               (rl_new RL (orElse (getRate this nm flg) MAX_RATE) (rateInterval this) now)
               (limiter.fields 0 0 (orElse (getRate this nm flg) MAX_RATE) now nm flg)"
  shows "priv_getLimiter RL this now nm flg = (l, store (nm @ flg) l this)"
  unfolding priv_getLimiter_def key_flag Let_def assms
  by (simp add: rateLimiter.defs limiter.defs)

lemma getLimiter_same:
  assumes "rateLimiters this (nm @ flg) = Some l"
    and "lastRate l = orElse (getRate this nm flg) MAX_RATE"
  shows "priv_getLimiter RL this now nm flg = (l, store (nm @ flg) l this)"
  unfolding priv_getLimiter_def key_flag Let_def
  using assms by simp

lemma getLimiter_changed:
  assumes "rateLimiters this (nm @ flg) = Some l"
    and "lastRate l \<noteq> orElse (getRate this nm flg) MAX_RATE"
    and "l' = setLimit RL (min (limit l) (orElse (getRate this nm flg) MAX_RATE))
                (l\<lparr> lastRate := orElse (getRate this nm flg) MAX_RATE \<rparr>)"
  shows "priv_getLimiter RL this now nm flg = (l', store (nm @ flg) l' this)"
  unfolding priv_getLimiter_def key_flag Let_def
  using assms by simp

lemma agentWithRate_fields:
  "getRate (agentWithRate r) = (\<lambda>_ _. r)"
  "rateInterval (agentWithRate r) = 1000"
  "rateLowerWeight (agentWithRate r) = 18"
  "rateLowerKoef (agentWithRate r) = nearestDouble 0.2"
  "rateRaiseKoef (agentWithRate r) = nearestDouble 0.02"
  "maxPending (agentWithRate r) = 3000"
  "maxBuffer (agentWithRate r) = 50"
  "checkBeforeRequest (agentWithRate r) = False"
  "getRateDirection (agentWithRate r) = defaultRateDirection"
  "rateLimiters (agentWithRate r) = Map.empty"
  "httpAgent.truncate (agentWithRate r) = freeBase"
  "sockets (agentWithRate r) = Map.empty"
  "requests (agentWithRate r) = Map.empty"
  "freeSockets (agentWithRate r) = Map.empty"
  by (simp_all add: agentWithRate_def constructor_def Let_def noOptions_def numberOr_def
        callbackOr_def orElse_def consts_defs httpAgent.defs agent.defs freeBase_def)

lemma store_fields:
  "rateLimiters (store k l this) = (rateLimiters this)(k \<mapsto> l)"
  "getRate (store k l this) = getRate this"
  "rateInterval (store k l this) = rateInterval this"
  "maxPending (store k l this) = maxPending this"
  "maxBuffer (store k l this) = maxBuffer this"
  "checkBeforeRequest (store k l this) = checkBeforeRequest this"
  "getFlag (store k l this) = getFlag this"
  "getName (store k l this) = getName this"
  "sockets (store k l this) = sockets this"
  "freeSockets (store k l this) = freeSockets this"
  "requests (store k l this) = requests this"
  "lastCleanupTime (store k l this) = lastCleanupTime this"
  by (simp_all add: store_def)


text \<open>
  C5. A fetch that finds the target different from \<open>lastRate\<close> stores it and calls
  \<open>setLimit\<close> with \<open>min(limit, target)\<close>: limit 80 under a target lowered from 100 to 50
  becomes 50. The limit can all the same come to stand above the target a fetch has
  observed. \<open>_changeRate\<close> reads \<open>getRate\<close> itself and leaves \<open>lastRate\<close> alone, and
  a fetch re-clamps only when the target differs from \<open>lastRate\<close>: after the target went
  from 100 to 200 and back, with one recomputation in between, the fetch sees the
  target 100 it saw before and leaves the limit at 102.
\<close>

theorem getLimiter_limit_above_target:
  "orElse (getRate (agentWithRate 100) ''h:80:'' []) MAX_RATE = 100
   \<and> lastRate (fst raisedThenRestored) = 100
   \<and> limit (fst raisedThenRestored) = 102
   \<and> fst (priv_getLimiter (specRateLimiter halfSmooth) (store ''h:80:'' s6Limiter (agentWithRate 50))
             7 ''h:80:'' [])
      = s6Limiter\<lparr> limit := 50, lastRate := 50 \<rparr>"
proof -
  let ?S = "specRateLimiter halfSmooth"
  let ?created = "\<lparr> limit = 100, interval = 1000, curIntervalStart = 0, tokensThisInterval = 0,
     incomingThisInterval = 0, averageTime = 0, success = 0, failed = 0, lastRate = 100,
     lastRateTime = 0, name = ''h:80:'', flag = [] \<rparr> :: limiter"
  let ?raised = "?created\<lparr> limit := 102, lastRateTime := 1000 \<rparr>"
  note cfg = agentWithRate_fields
  have t: "orElse (getRate (agentWithRate 100) ''h:80:'' []) MAX_RATE = 100"
    by (simp add: cfg orElse_def)
  have "priv_getLimiter ?S (agentWithRate 100) 0 ''h:80:'' []
          = (?created, store (''h:80:'' @ []) ?created (agentWithRate 100))"
    by (rule getLimiter_create)
       (simp_all add: cfg orElse_def specRateLimiter_def spec_new_def MAX_RATE_def
          rateLimiter.defs limiter.defs)
  then have c: "fst (priv_getLimiter ?S (agentWithRate 100) 0 ''h:80:'' []) = ?created"
    by simp
  have "priv_changeRate ?S (agentWithRate 200) 1000 (Status 200) ?created
      = (setLimit ?S 102 (?created\<lparr> success := 1, lastRateTime := 1000 \<rparr>))
          \<lparr> success := 0, failed := 0 \<rparr>"
  proof (rule changeRate_eval [where diff = 1 and step = 2 and target = 200])
    show "countOutcome (getRateDirection (agentWithRate 200) (Status 200)
            (httpAgent.truncate (agentWithRate 200)) ?created) ?created
          = ?created\<lparr> success := 1 \<rparr>"
      unfolding cfg by (simp add: defaultRateDirection_def freeBase_def countOutcome_def)
    have "jsAdd 0 1000 = 1000" by (simp add: jsAdd_def double_eval)
    then show "jsAdd (lastRateTime (?created\<lparr> success := 1 \<rparr>)) (rateInterval (agentWithRate 200))
            \<le> 1000"
      unfolding cfg by simp
    have "jsMul 0 18 = 0" by (simp add: jsMul_def nearestDouble_zero)
    moreover have "jsSub 1 0 = 1" by (simp add: jsSub_def double_eval)
    ultimately show "jsSub (success (?created\<lparr> success := 1 \<rparr>))
            (jsMul (failed (?created\<lparr> success := 1 \<rparr>)) (rateLowerWeight (agentWithRate 200)))
          = 1"
      unfolding cfg by simp
    show "(1 :: real) \<noteq> 0" by simp
    show "orElse (getRate (agentWithRate 200) (name (?created\<lparr> success := 1 \<rparr>))
            (flag (?created\<lparr> success := 1 \<rparr>))) MAX_RATE = 200"
      unfolding cfg by (simp add: orElse_def)
    have "jsMul 100 (nearestDouble 0.02) = 2"
      unfolding double_literals by (simp add: jsMul_def double_eval)
    then show "max (of_int \<lfloor>jsMul (limit (?created\<lparr> success := 1 \<rparr>))
            (if (1 :: real) < 0 then rateLowerKoef (agentWithRate 200)
             else rateRaiseKoef (agentWithRate 200))\<rfloor>) 1 = (2 :: real)"
      unfolding cfg by simp
    have "jsMul 1 2 = 2" by (simp add: jsMul_def double_eval)
    moreover have "jsAdd 100 2 = 102" by (simp add: jsAdd_def double_eval)
    ultimately show "max MIN_RATE (min 200
            (jsAdd (limit (?created\<lparr> success := 1 \<rparr>)) (jsMul (sgn (1 :: real)) 2))) = 102"
      by (simp add: MIN_RATE_def)
  qed
  also have "\<dots> = ?raised"
    by (subst spec_setLimit_in_range) (simp_all add: MIN_RATE_def MAX_RATE_def)
  finally have r: "priv_changeRate ?S (agentWithRate 200) 1000 (Status 200) ?created = ?raised" .
  have "priv_getLimiter ?S (store ''h:80:'' ?raised (agentWithRate 100)) 1001 ''h:80:'' []
          = (?raised, store (''h:80:'' @ []) ?raised (store ''h:80:'' ?raised (agentWithRate 100)))"
    by (rule getLimiter_same)
       (simp_all add: store_fields cfg orElse_def)
  then have f: "fst raisedThenRestored = ?raised"
    unfolding raisedThenRestored_def Let_def c r by simp
  have "priv_getLimiter ?S (store ''h:80:'' s6Limiter (agentWithRate 50)) 7 ''h:80:'' []
          = (s6Limiter\<lparr> limit := 50, lastRate := 50 \<rparr>,
             store (''h:80:'' @ []) (s6Limiter\<lparr> limit := 50, lastRate := 50 \<rparr>)
               (store ''h:80:'' s6Limiter (agentWithRate 50)))"
  proof (rule getLimiter_changed [where l = s6Limiter])
    show "rateLimiters (store ''h:80:'' s6Limiter (agentWithRate 50)) (''h:80:'' @ []) = Some s6Limiter"
      by (simp add: store_fields)
    show "lastRate s6Limiter
            \<noteq> orElse (getRate (store ''h:80:'' s6Limiter (agentWithRate 50)) ''h:80:'' []) MAX_RATE"
      by (simp add: store_fields cfg orElse_def s6Limiter_def)
    have "setLimit ?S (min (limit s6Limiter) 50) (s6Limiter\<lparr> lastRate := 50 \<rparr>)
            = s6Limiter\<lparr> limit := 50, lastRate := 50 \<rparr>"
      by (subst spec_setLimit_in_range) (simp_all add: MIN_RATE_def MAX_RATE_def s6Limiter_def)
    then show "s6Limiter\<lparr> limit := 50, lastRate := 50 \<rparr>
            = setLimit ?S (min (limit s6Limiter)
                (orElse (getRate (store ''h:80:'' s6Limiter (agentWithRate 50)) ''h:80:'' []) MAX_RATE))
                (s6Limiter\<lparr> lastRate :=
                   orElse (getRate (store ''h:80:'' s6Limiter (agentWithRate 50)) ''h:80:'' []) MAX_RATE \<rparr>)"
      by (simp add: store_fields cfg orElse_def)
  qed
  then have l: "fst (priv_getLimiter ?S (store ''h:80:'' s6Limiter (agentWithRate 50)) 7 ''h:80:'' [])
      = s6Limiter\<lparr> limit := 50, lastRate := 50 \<rparr>"
    by simp
  show ?thesis using t f l by simp
qed

lemma getLimiter_snd:
  "snd (priv_getLimiter RL this now nm flg)
     = store (nm @ flg) (fst (priv_getLimiter RL this now nm flg)) this"
  by (simp add: priv_getLimiter_def Let_def)

lemma store_store: "store k l' (store k l this) = store k l' this"
  by (simp add: store_def)

lemma bufferLoop_sum:
  "bufferLoop ss (a, c) = (a + sum_list (map bufferSize ss), c + real (length ss))"
  by (induction ss arbitrary: a c) (simp_all add: algebra_simps)

lemma countRejected_eq:
  "countRejected withFailed l =
     l\<lparr> incomingThisInterval := incomingThisInterval l + 1,
        failed := failed l + (if withFailed then 1 else 0) \<rparr>"
  by (simp add: countRejected_def Let_def)

lemma canAcceptRequest_cases:
  assumes "l = fst (priv_getLimiter RL this now nm flg)"
  shows "priv_canAcceptRequest RL this now nm flg withFailed =
     (if (case requests this nm of None \<Rightarrow> False | Some rs \<Rightarrow> maxPending this \<le> real (length rs))
      then (False, store (nm @ flg) (countRejected withFailed l) this)
      else if tokensThisInterval l \<noteq> 0 \<and>
              (case sockets this nm of
                 None \<Rightarrow> False
               | Some ss \<Rightarrow> ss \<noteq> [] \<and>
                   sum_list (map bufferSize ss) / real (length ss)
                     > (if averageTime l < AVG_TIME then maxBuffer this * 7 else maxBuffer this))
      then (False, store (nm @ flg) (countRejected withFailed l) this)
      else (case accept RL 1 now l of (ok, l') \<Rightarrow> (ok, store (nm @ flg) l' this)))"
proof -
  have g: "priv_getLimiter RL this now nm flg = (l, store (nm @ flg) l this)"
    unfolding assms using getLimiter_snd [of RL this now nm flg]
    by (simp add: prod_eq_iff)
  have buf: "(case bufferLoop ss (0, 0) of (bSize, bCount) \<Rightarrow> bCount \<noteq> 0 \<and> bSize / bCount > cap)
        = (ss \<noteq> [] \<and> sum_list (map bufferSize ss) / real (length ss) > cap)" for ss cap
    by (simp add: bufferLoop_sum)
  show ?thesis
    unfolding priv_canAcceptRequest_def g key_flag
    by (simp add: Let_def buf store_fields store_store split: option.split)
qed


lemma getLimiter_requests:
  "fst (priv_getLimiter RL (this\<lparr> requests := q \<rparr>) now nm flg) = fst (priv_getLimiter RL this now nm flg)"
  by (simp add: priv_getLimiter_def Let_def cong: option.case_cong)

lemma store_requests:
  "store k l (this\<lparr> requests := q \<rparr>) = (store k l this)\<lparr> requests := q \<rparr>"
  "(store k l this)\<lparr> requests := requests this \<rparr> = store k l this"
  by (simp_all add: store_def)

text \<open>
  C3. Let \<open>l\<close> be the limiter \<open>_getLimiter\<close> hands to the check. When the pending queue
  of the name has at least \<open>maxPending\<close> entries, the check returns \<open>false\<close> and the
  limiter stored is \<open>l\<close> with \<open>incomingThisInterval\<close> one higher and \<open>failed\<close> one
  higher iff \<open>withFailed\<close>; \<open>tokensThisInterval\<close> is as before. With
  \<open>maxPending - 1\<close> entries the gate does not fire: verdict and registry are those of
  the same check with no pending queue for the name.
\<close>

theorem queue_gate:
  assumes "l = fst (priv_getLimiter RL this now nm flg)"
    and "requests this nm = Some rs"
    and "l2 = l\<lparr> incomingThisInterval := incomingThisInterval l + 1,
                  failed := failed l + (if withFailed then 1 else 0) \<rparr>"
  shows "(maxPending this \<le> real (length rs) \<longrightarrow>
            priv_canAcceptRequest RL this now nm flg withFailed = (False, store (nm @ flg) l2 this)
            \<and> tokensThisInterval l2 = tokensThisInterval l)
       \<and> (real (length rs) = maxPending this - 1 \<longrightarrow>
            priv_canAcceptRequest RL this now nm flg withFailed
              = (case priv_canAcceptRequest RL (this\<lparr> requests := (requests this)(nm := None) \<rparr>)
                        now nm flg withFailed of
                   (ok, this') \<Rightarrow> (ok, this'\<lparr> requests := requests this \<rparr>)))"
proof -
  have full: "priv_canAcceptRequest RL this now nm flg withFailed = (False, store (nm @ flg) l2 this)"
    if "maxPending this \<le> real (length rs)"
    unfolding canAcceptRequest_cases [OF assms(1)] assms(3) countRejected_eq
    using assms(2) that by simp
  have tok: "tokensThisInterval l2 = tokensThisInterval l"
    unfolding assms(3) by simp
  have below: "priv_canAcceptRequest RL this now nm flg withFailed
              = (case priv_canAcceptRequest RL (this\<lparr> requests := (requests this)(nm := None) \<rparr>)
                        now nm flg withFailed of
                   (ok, this') \<Rightarrow> (ok, this'\<lparr> requests := requests this \<rparr>))"
    if "real (length rs) = maxPending this - 1"
  proof -
    let ?this = "this\<lparr> requests := (requests this)(nm := None) \<rparr>"
    have l': "l = fst (priv_getLimiter RL ?this now nm flg)"
      unfolding getLimiter_requests assms(1) ..
    have q: "\<not> maxPending this \<le> real (length rs)"
      using that by simp
    show ?thesis
      unfolding canAcceptRequest_cases [OF assms(1)] canAcceptRequest_cases [OF l']
      using assms(2) q
      by (simp add: store_requests split: prod.split cong: option.case_cong)
  qed
  show ?thesis using full tok below by blast
qed


lemma spec_created:
  "rateLimiter.extend (rl_new (specRateLimiter smooth) r ival now) (limiter.fields 0 0 r now nm flg)
     = \<lparr> limit = min r MAX_RATE, interval = ival, curIntervalStart = now, tokensThisInterval = 0,
         incomingThisInterval = 0, averageTime = 0, success = 0, failed = 0, lastRate = r,
         lastRateTime = now, name = nm, flag = flg \<rparr>"
  by (simp add: specRateLimiter_def spec_new_def rateLimiter.defs limiter.defs)


lemma spec_accept_fresh:
  assumes "tokensThisInterval l = 0" and "1 \<le> limit l"
  shows "fst (accept (specRateLimiter smooth) 1 now l) = True"
  using assms
  by (cases l) (simp add: accept_def specRateLimiter_def spec_accept_def Let_def rateLimiter.defs)

lemma fresh_endpoint_accepted:
  assumes "rateLimiters this (nm @ flg) = None"
    and "case requests this nm of None \<Rightarrow> True | Some rs \<Rightarrow> real (length rs) < maxPending this"
    and "1 \<le> orElse (getRate this nm flg) MAX_RATE"
  shows "fst (priv_canAcceptRequest (specRateLimiter smooth) this now nm flg withFailed) = True"
proof -
  let ?l = "fst (priv_getLimiter (specRateLimiter smooth) this now nm flg)"
  have l: "?l = \<lparr> limit = min (orElse (getRate this nm flg) MAX_RATE) MAX_RATE,
                   interval = rateInterval this, curIntervalStart = now, tokensThisInterval = 0,
                   incomingThisInterval = 0, averageTime = 0, success = 0, failed = 0,
                   lastRate = orElse (getRate this nm flg) MAX_RATE,
                   lastRateTime = now, name = nm, flag = flg \<rparr>"
    unfolding getLimiter_create [OF assms(1) refl] spec_created by simp
  have t: "tokensThisInterval ?l = 0" and m: "1 \<le> limit ?l"
    unfolding l using assms(3) by (simp_all add: MAX_RATE_def)
  have q: "\<not> (case requests this nm of None \<Rightarrow> False | Some rs \<Rightarrow> maxPending this \<le> real (length rs))"
    using assms(2) by (simp split: option.splits)
  show ?thesis
    unfolding canAcceptRequest_cases [OF refl]
    using q t spec_accept_fresh [OF t m, of smooth now]
    by (simp add: split_beta)
qed

theorem queue_gate_witness:
  "requests (s3Agent 3) ''h:80:'' = Some (replicate 3 pendingRequest)
   \<and> maxPending (s3Agent 3) \<le> real (length (replicate 3 pendingRequest))
   \<and> priv_canAcceptRequest (specRateLimiter halfSmooth) (s3Agent 3) 0 ''h:80:'' [] False
       = (False, store ''h:80:'' (freshLimiter\<lparr> incomingThisInterval := 1 \<rparr>) (s3Agent 3))
   \<and> requests (s3Agent 2) ''h:80:'' = Some (replicate 2 pendingRequest)
   \<and> real (length (replicate 2 pendingRequest)) = maxPending (s3Agent 2) - 1
   \<and> fst (priv_canAcceptRequest (specRateLimiter halfSmooth) (s3Agent 2) 0 ''h:80:'' [] False) = True"
proof -
  let ?S = "specRateLimiter halfSmooth"
  have f: "requests (s3Agent n) ''h:80:'' = Some (replicate n pendingRequest)"
      "maxPending (s3Agent n) = 3" "rateLimiters (s3Agent n) = Map.empty"
      "getRate (s3Agent n) = (\<lambda>_ _. 1000000)" "rateInterval (s3Agent n) = 1000" for n
    by (simp_all add: s3Agent_def constructor_def Let_def noOptions_def numberOr_def callbackOr_def
          orElse_def consts_defs httpAgent.defs agent.defs freeBase_def)
  have fresh: "fst (priv_getLimiter ?S (s3Agent n) 0 ''h:80:'' []) = freshLimiter" for n
    by (subst getLimiter_create [OF _ refl])
       (simp_all add: f spec_created orElse_def MAX_RATE_def freshLimiter_def)
  have a: "maxPending (s3Agent 3) \<le> real (length (replicate 3 pendingRequest))"
    by (simp add: f)
  have b: "real (length (replicate 2 pendingRequest)) = maxPending (s3Agent 2) - 1"
    by (simp add: f)
  have up: "freshLimiter\<lparr> incomingThisInterval := incomingThisInterval freshLimiter + 1,
              failed := failed freshLimiter + (if False then 1 else 0) \<rparr>
            = freshLimiter\<lparr> incomingThisInterval := 1 \<rparr>"
    by (simp add: freshLimiter_def)
  have full: "priv_canAcceptRequest ?S (s3Agent 3) 0 ''h:80:'' [] False
       = (False, store ''h:80:'' (freshLimiter\<lparr> incomingThisInterval := 1 \<rparr>) (s3Agent 3))"
    using queue_gate [OF fresh [of 3, symmetric] f(1) up [symmetric]] a by simp
  let ?emptied = "(s3Agent 2)\<lparr> requests := (requests (s3Agent 2))(''h:80:'' := None) \<rparr>"
  have e: "fst (priv_canAcceptRequest ?S ?emptied 0 ''h:80:'' [] False) = True"
    by (rule fresh_endpoint_accepted) (simp_all add: f orElse_def)
  have "priv_canAcceptRequest ?S (s3Agent 2) 0 ''h:80:'' [] False
          = (case priv_canAcceptRequest ?S ?emptied 0 ''h:80:'' [] False of
               (ok, this') \<Rightarrow> (ok, this'\<lparr> requests := requests (s3Agent 2) \<rparr>))"
    using queue_gate [OF fresh [of 2, symmetric] f(1) up [symmetric]] b by simp
  then have below: "fst (priv_canAcceptRequest ?S (s3Agent 2) 0 ''h:80:'' [] False) = True"
    using e by (simp add: split_beta)
  show ?thesis using f(1) a b full below by simp
qed






lemma recomputeRate_agent_cong:
  assumes "rateInterval a = rateInterval b"
    and "orElse (getRate a (name l) (flag l)) MAX_RATE = orElse (getRate b (name l) (flag l)) MAX_RATE"
    and "rateLowerWeight a = rateLowerWeight b"
    and "rateLowerKoef a = rateLowerKoef b"
    and "rateRaiseKoef a = rateRaiseKoef b"
  shows "recomputeRate RL a now l = recomputeRate RL b now l"
  unfolding recomputeRate_def assms ..

lemma getLimiter_agent_cong:
  assumes "rateLimiters a = rateLimiters b"
    and "orElse (getRate a nm flg) MAX_RATE = orElse (getRate b nm flg) MAX_RATE"
    and "rateInterval a = rateInterval b"
  shows "fst (priv_getLimiter RL a now nm flg) = fst (priv_getLimiter RL b now nm flg)"
  unfolding priv_getLimiter_def Let_def assms by simp


text \<open>
  C9. Where \<open>getRate\<close> answers 0 for an endpoint, \<open>_getLimiter\<close> and \<open>_changeRate\<close>
  do what they do for an agent whose \<open>getRate\<close> answers 1000000: a limiter created
  for the endpoint is constructed with 1000000 and has that as its \<open>lastRate\<close>, and
  a recomputation at a boundary with \<open>diff \<noteq> 0\<close> hands \<open>setLimit\<close> the new limit clamped
  to at most 1000000 (and then to at least \<open>MIN_RATE\<close>). With the limiter of the
  specification the first request to such an endpoint is admitted unless the
  queue-depth gate fires.
\<close>

theorem zero_rate_is_max_rate:
  assumes "getRate this nm flg = 0"
    and "this' = this\<lparr> getRate := \<lambda>_ _. 1000000 \<rparr>"
    and "l1 = countOutcome (getRateDirection this c (httpAgent.truncate this) l) l"
    and "diff = jsSub (success l1) (jsMul (failed l1) (rateLowerWeight this))"
    and "uncapped = jsAdd (limit l1) (jsMul (sgn diff)
           (max (of_int \<lfloor>jsMul (limit l1)
                   (if diff < 0 then rateLowerKoef this else rateRaiseKoef this)\<rfloor>) 1))"
  shows "fst (priv_getLimiter RL this now nm flg) = fst (priv_getLimiter RL this' now nm flg)
       \<and> (rateLimiters this (nm @ flg) = None \<longrightarrow>
            fst (priv_getLimiter RL this now nm flg)
              = rateLimiter.extend (rl_new RL 1000000 (rateInterval this) now)
                  (limiter.fields 0 0 1000000 now nm flg))
       \<and> (name l = nm \<and> flag l = flg \<longrightarrow>
            priv_changeRate RL this now c l = priv_changeRate RL this' now c l)
       \<and> (name l = nm \<and> flag l = flg \<and> jsAdd (lastRateTime l1) (rateInterval this) \<le> now
            \<and> diff \<noteq> 0 \<longrightarrow>
            priv_changeRate RL this now c l
              = (setLimit RL (max MIN_RATE (min 1000000 uncapped)) (l1\<lparr> lastRateTime := now \<rparr>))
                  \<lparr> success := 0, failed := 0 \<rparr>)
       \<and> (rateLimiters this (nm @ flg) = None \<and>
            (case requests this nm of None \<Rightarrow> True | Some rs \<Rightarrow> real (length rs) < maxPending this) \<longrightarrow>
            fst (priv_canAcceptRequest (specRateLimiter smooth) this now nm flg withFailed) = True)"
proof -
  have t: "orElse (getRate this nm flg) MAX_RATE = 1000000"
    using assms(1) by (simp add: orElse_def MAX_RATE_def)
  have t': "orElse (getRate this' nm' flg') MAX_RATE = 1000000" for nm' flg'
    unfolding assms(2) by (simp add: orElse_def)
  have same: "rateLimiters this = rateLimiters this'" "rateInterval this = rateInterval this'"
    "rateLowerWeight this = rateLowerWeight this'" "rateLowerKoef this = rateLowerKoef this'"
    "rateRaiseKoef this = rateRaiseKoef this'"
    unfolding assms(2) by simp_all
  have g: "fst (priv_getLimiter RL this now nm flg) = fst (priv_getLimiter RL this' now nm flg)"
    by (rule getLimiter_agent_cong) (simp_all add: same t t')
  have cr: "fst (priv_getLimiter RL this now nm flg)
              = rateLimiter.extend (rl_new RL 1000000 (rateInterval this) now)
                  (limiter.fields 0 0 1000000 now nm flg)"
    if "rateLimiters this (nm @ flg) = None"
    using getLimiter_create [OF that refl, of RL now] t by simp
  have nf: "name (countOutcome d l) = name l" "flag (countOutcome d l) = flag l" for d
    by (simp_all add: countOutcome_def)
  have ch: "priv_changeRate RL this now c l = priv_changeRate RL this' now c l"
    if "name l = nm \<and> flag l = flg"
  proof -
    have d: "getRateDirection this' c (httpAgent.truncate this') l
               = getRateDirection this c (httpAgent.truncate this) l"
      unfolding assms(2) by (simp add: httpAgent.defs)
    show ?thesis
      unfolding priv_changeRate_def d
      by (rule recomputeRate_agent_cong) (simp_all add: same nf that t t')
  qed
  have cap: "priv_changeRate RL this now c l
              = (setLimit RL (max MIN_RATE (min 1000000 uncapped)) (l1\<lparr> lastRateTime := now \<rparr>))
                  \<lparr> success := 0, failed := 0 \<rparr>"
    if h: "name l = nm \<and> flag l = flg \<and> jsAdd (lastRateTime l1) (rateInterval this) \<le> now
           \<and> diff \<noteq> 0"
  proof (rule changeRate_eval [where diff = diff and target = 1000000])
    show "countOutcome (getRateDirection this c (httpAgent.truncate this) l) l = l1"
      using assms(3) by simp
    show "jsAdd (lastRateTime l1) (rateInterval this) \<le> now" using h by simp
    show "jsSub (success l1) (jsMul (failed l1) (rateLowerWeight this)) = diff"
      using assms(4) by simp
    show "diff \<noteq> 0" using h by simp
    show "orElse (getRate this (name l1) (flag l1)) MAX_RATE = 1000000"
      unfolding assms(3) nf using h t by simp
    show "max (of_int \<lfloor>jsMul (limit l1)
            (if diff < 0 then rateLowerKoef this else rateRaiseKoef this)\<rfloor>) 1
          = max (of_int \<lfloor>jsMul (limit l1)
            (if diff < 0 then rateLowerKoef this else rateRaiseKoef this)\<rfloor>) 1" ..
    show "max MIN_RATE (min 1000000 (jsAdd (limit l1) (jsMul (sgn diff)
            (max (of_int \<lfloor>jsMul (limit l1)
               (if diff < 0 then rateLowerKoef this else rateRaiseKoef this)\<rfloor>) 1))))
          = max MIN_RATE (min 1000000 uncapped)"
      unfolding assms(5) ..
  qed
  have nb: "fst (priv_canAcceptRequest (specRateLimiter smooth) this now nm flg withFailed) = True"
    if "rateLimiters this (nm @ flg) = None \<and>
        (case requests this nm of None \<Rightarrow> True | Some rs \<Rightarrow> real (length rs) < maxPending this)"
    using that t by (intro fresh_endpoint_accepted) simp_all
  show ?thesis using g cr ch cap nb by blast
qed

theorem zero_rate_is_max_rate_witness:
  "getRate (agentWithRate 0) ''h:80:'' [] = 0
   \<and> fst (priv_getLimiter (specRateLimiter halfSmooth) (agentWithRate 0) 0 ''h:80:'' []) = freshLimiter
   \<and> fst (priv_canAcceptRequest (specRateLimiter halfSmooth) (agentWithRate 0) 0 ''h:80:'' [] False)
       = True
   \<and> jsAdd (lastRateTime (nearCapLimiter\<lparr> success := 1 \<rparr>)) (rateInterval (agentWithRate 0)) \<le> 1000
   \<and> jsSub (success (nearCapLimiter\<lparr> success := 1 \<rparr>))
        (jsMul (failed (nearCapLimiter\<lparr> success := 1 \<rparr>)) (rateLowerWeight (agentWithRate 0))) = 1
   \<and> priv_changeRate (specRateLimiter halfSmooth) (agentWithRate 0) 1000 (Status 200) nearCapLimiter
       = nearCapLimiter\<lparr> limit := 1000000, lastRateTime := 1000 \<rparr>"
proof -
  let ?S = "specRateLimiter halfSmooth"
  let ?ag = "agentWithRate 0"
  let ?l1 = "nearCapLimiter\<lparr> success := 1 \<rparr>"
  note cfg = agentWithRate_fields
  have z: "getRate ?ag ''h:80:'' [] = 0"
    by (simp add: cfg)
  have e: "rateLimiters ?ag (''h:80:'' @ []) = None"
    by (simp add: cfg)
  have q: "case requests ?ag ''h:80:'' of None \<Rightarrow> True
           | Some rs \<Rightarrow> real (length rs) < maxPending ?ag"
    by (simp add: cfg)
  have 3: "?l1 = countOutcome (getRateDirection ?ag (Status 200) (httpAgent.truncate ?ag)
             nearCapLimiter) nearCapLimiter"
    unfolding cfg
    by (simp add: defaultRateDirection_def freeBase_def countOutcome_def nearCapLimiter_def)
  have "jsAdd 0 1000 = 1000" by (simp add: jsAdd_def double_eval)
  then have b: "jsAdd (lastRateTime ?l1) (rateInterval ?ag) \<le> 1000"
    unfolding cfg by (simp add: nearCapLimiter_def)
  have "jsMul 0 18 = 0" by (simp add: jsMul_def nearestDouble_zero)
  moreover have "jsSub 1 0 = 1" by (simp add: jsSub_def double_eval)
  ultimately have 4: "1 = jsSub (success ?l1) (jsMul (failed ?l1) (rateLowerWeight ?ag))"
    unfolding cfg by (simp add: nearCapLimiter_def)
  have "jsMul 990000 (nearestDouble 0.02) = 19800"
    unfolding double_literals by (simp add: jsMul_def double_eval)
  moreover have "jsMul 1 19800 = 19800" by (simp add: jsMul_def double_eval)
  moreover have "jsAdd 990000 19800 = 1009800" by (simp add: jsAdd_def double_eval)
  ultimately have 5: "1009800 = jsAdd (limit ?l1) (jsMul (sgn (1 :: real))
           (max (of_int \<lfloor>jsMul (limit ?l1)
                   (if (1 :: real) < 0 then rateLowerKoef ?ag else rateRaiseKoef ?ag)\<rfloor>) 1))"
    unfolding cfg by (simp add: nearCapLimiter_def)
  note th = zero_rate_is_max_rate [OF z refl 3 4 5, where RL = ?S and now = 1000
      and smooth = halfSmooth and withFailed = False]
  have nfl: "name nearCapLimiter = ''h:80:'' \<and> flag nearCapLimiter = []"
    by (simp add: nearCapLimiter_def)
  have d: "(1 :: real) \<noteq> 0"
    by simp
  from th nfl b d have "priv_changeRate ?S ?ag 1000 (Status 200) nearCapLimiter
      = (setLimit ?S (max MIN_RATE (min 1000000 1009800)) (?l1\<lparr> lastRateTime := 1000 \<rparr>))
          \<lparr> success := 0, failed := 0 \<rparr>"
    by blast
  also have "\<dots> = nearCapLimiter\<lparr> limit := 1000000, lastRateTime := 1000 \<rparr>"
    by (subst spec_setLimit_in_range) (simp_all add: MIN_RATE_def MAX_RATE_def nearCapLimiter_def)
  finally have r: "priv_changeRate ?S ?ag 1000 (Status 200) nearCapLimiter
      = nearCapLimiter\<lparr> limit := 1000000, lastRateTime := 1000 \<rparr>" .
  note th0 = zero_rate_is_max_rate [OF z refl 3 4 5, where RL = ?S and now = 0
      and smooth = halfSmooth and withFailed = False]
  from th0 e have "fst (priv_getLimiter ?S ?ag 0 ''h:80:'' [])
      = rateLimiter.extend (rl_new ?S 1000000 (rateInterval ?ag) 0)
          (limiter.fields 0 0 1000000 0 ''h:80:'' [])"
    by blast
  then have c: "fst (priv_getLimiter ?S ?ag 0 ''h:80:'' []) = freshLimiter"
    by (simp add: spec_created cfg freshLimiter_def MAX_RATE_def)
  from th0 e q have a: "fst (priv_canAcceptRequest ?S ?ag 0 ''h:80:'' [] False) = True"
    by blast
  show ?thesis using z c a b 4 r by simp
qed

text \<open>
  C10. With \<open>checkBeforeRequest\<close> on, \<open>canAcceptRequest(url)\<close> is the check under the
  name \<open>hostname + ':' + (port or 80) + ':'\<close> with the flag of the url and \<open>withFailed\<close>
  true; a url without a port is checked under \<open>hostname:80:\<close>; and the protocol of the
  parsed url makes no difference, so this holds for an https url as well.
\<close>

theorem canAcceptRequest_key:
  assumes "checkBeforeRequest this"
    and "host = (case hostname (parse u) of None \<Rightarrow> ''null'' | Some h \<Rightarrow> h)"
  shows "canAcceptRequest RL parse this now u
           = priv_canAcceptRequest RL this now
               (host @ '':'' @ (case port (parse u) of
                                  None \<Rightarrow> ''80''
                                | Some p \<Rightarrow> if p = [] then ''80'' else p) @ '':'')
               (getFlag this u) True
       \<and> (port (parse u) = None \<longrightarrow>
            canAcceptRequest RL parse this now u
              = priv_canAcceptRequest RL this now (host @ '':80:'') (getFlag this u) True)
       \<and> canAcceptRequest RL (\<lambda>x. (parse x)\<lparr> protocol := scheme \<rparr>) this now u
           = canAcceptRequest RL parse this now u"
  using assms by (simp add: canAcceptRequest_def Let_def)

theorem canAcceptRequest_key_witness:
  "checkBeforeRequest precheckAgent
   \<and> port (httpsParse ''https://example.com/path'') = None
   \<and> canAcceptRequest (specRateLimiter halfSmooth) httpsParse precheckAgent 0 ''https://example.com/path''
       = priv_canAcceptRequest (specRateLimiter halfSmooth) precheckAgent 0 ''example.com:80:'' [] True"
proof -
  have c: "checkBeforeRequest precheckAgent"
    by (simp add: precheckAgent_def constructor_def Let_def httpAgent.defs agent.defs)
  have f: "getFlag precheckAgent = (\<lambda>_. [])"
    by (simp add: precheckAgent_def constructor_def Let_def noOptions_def callbackOr_def
          httpAgent.defs agent.defs)
  have h: "''example.com'' = (case hostname (httpsParse ''https://example.com/path'') of
                               None \<Rightarrow> ''null'' | Some h \<Rightarrow> h)"
    by (simp add: httpsParse_def)
  have p: "port (httpsParse ''https://example.com/path'') = None"
    by (simp add: httpsParse_def)
  from canAcceptRequest_key [where parse = httpsParse and u = "''https://example.com/path''"
      and RL = "specRateLimiter halfSmooth" and now = 0 and scheme = None, OF c h] p
  have "canAcceptRequest (specRateLimiter halfSmooth) httpsParse precheckAgent 0 ''https://example.com/path''
       = priv_canAcceptRequest (specRateLimiter halfSmooth) precheckAgent 0 (''example.com'' @ '':80:'')
           (getFlag precheckAgent ''https://example.com/path'') True"
    by blast
  then show ?thesis using c p by (simp add: f)
qed

text \<open>
  C6. The sweep removes the limiter stored under a key iff its \<open>curIntervalStart\<close>
  plus 60000 is less than \<open>now\<close> and the transport has no socket, no free socket and
  no pending request for the limiter's name (the entry is missing or empty); any other
  limiter stays as it is. So a limiter whose name has a socket, a free socket or a
  pending request is not removed.
\<close>

theorem cleanup_removes_iff:
  assumes "rateLimiters this key = Some l"
    and "idle = (curIntervalStart l + 60000 < now
                 \<and> (sockets this (name l) = None \<or> sockets this (name l) = Some [])
                 \<and> (freeSockets this (name l) = None \<or> freeSockets this (name l) = Some [])
                 \<and> (requests this (name l) = None \<or> requests this (name l) = Some []))"
  shows "(rateLimiters (priv_cleanup this now) key = None \<longleftrightarrow> idle)
       \<and> (\<not> idle \<longrightarrow> rateLimiters (priv_cleanup this now) key = Some l)
       \<and> ((\<exists>s ss. sockets this (name l) = Some (s # ss)
            \<or> freeSockets this (name l) = Some (s # ss))
           \<or> (\<exists>r rs. requests this (name l) = Some (r # rs)) \<longrightarrow>
            rateLimiters (priv_cleanup this now) key = Some l)"
proof -
  have n: "noEntries x \<longleftrightarrow> x = None \<or> x = Some []" for x :: "'a list option"
    by (simp add: noEntries_def split: option.split)
  have r: "rateLimiters (priv_cleanup this now) key = (if idle then None else Some l)"
    unfolding priv_cleanup_def assms(2) using assms(1)
    by (simp add: n CLEANUP_TIME_def)
  show ?thesis unfolding r using assms(2) by auto
qed

theorem cleanup_removes_iff_witness:
  "rateLimiters s5Agent ''h1:80:'' = Some (s5Limiter ''h1:80:'')
   \<and> rateLimiters (priv_cleanup s5Agent 61000) ''h1:80:'' = None
   \<and> rateLimiters s5Agent ''h:80:'' = Some (s5Limiter ''h:80:'')
   \<and> rateLimiters (priv_cleanup s5Agent 61000) ''h:80:'' = Some (s5Limiter ''h:80:'')"
proof -
  have f: "sockets s5Agent = [''h:80:'' \<mapsto> [\<lparr> bufferSize = 0, destroyed = False \<rparr>]]"
    "freeSockets s5Agent = Map.empty" "requests s5Agent = Map.empty"
    by (simp_all add: s5Agent_def store_fields constructor_base busyBase_def)
  have a: "rateLimiters s5Agent ''h1:80:'' = Some (s5Limiter ''h1:80:'')"
    and b: "rateLimiters s5Agent ''h:80:'' = Some (s5Limiter ''h:80:'')"
    by (simp_all add: s5Agent_def store_fields)
  have ia: "True = (curIntervalStart (s5Limiter ''h1:80:'') + 60000 < 61000
                 \<and> (sockets s5Agent (name (s5Limiter ''h1:80:'')) = None
                      \<or> sockets s5Agent (name (s5Limiter ''h1:80:'')) = Some [])
                 \<and> (freeSockets s5Agent (name (s5Limiter ''h1:80:'')) = None
                      \<or> freeSockets s5Agent (name (s5Limiter ''h1:80:'')) = Some [])
                 \<and> (requests s5Agent (name (s5Limiter ''h1:80:'')) = None
                      \<or> requests s5Agent (name (s5Limiter ''h1:80:'')) = Some []))"
    by (simp add: f s5Limiter_def)
  have ib: "False = (curIntervalStart (s5Limiter ''h:80:'') + 60000 < 61000
                 \<and> (sockets s5Agent (name (s5Limiter ''h:80:'')) = None
                      \<or> sockets s5Agent (name (s5Limiter ''h:80:'')) = Some [])
                 \<and> (freeSockets s5Agent (name (s5Limiter ''h:80:'')) = None
                      \<or> freeSockets s5Agent (name (s5Limiter ''h:80:'')) = Some [])
                 \<and> (requests s5Agent (name (s5Limiter ''h:80:'')) = None
                      \<or> requests s5Agent (name (s5Limiter ''h:80:'')) = Some []))"
    by (simp add: f s5Limiter_def)
  from cleanup_removes_iff [OF a ia] have ra: "rateLimiters (priv_cleanup s5Agent 61000) ''h1:80:'' = None"
    by blast
  from cleanup_removes_iff [OF b ib]
  have rb: "rateLimiters (priv_cleanup s5Agent 61000) ''h:80:'' = Some (s5Limiter ''h:80:'')"
    by blast
  show ?thesis using a b ra rb by simp
qed

lemma addRequest_rejected:
  assumes "\<not> checkBeforeRequest this"
    and "priv_canAcceptRequest RL this now (getName this nfo)
           (getFlag this (case uri nfo of Some h \<Rightarrow> h | None \<Rightarrow> [])) False = (False, this1)"
  shows "addRequest RL this now request nfo =
     \<lparr> forwarded = False,
       a_request = (if hasLength (events_error request)
                    then request\<lparr> aborted := True,
                           emitted := emitted request @
                             [\<lparr> message = ''429 Too Many Requests'', errCode = Status 429 \<rparr>] \<rparr>
                    else request\<lparr> aborted := True \<rparr>),
       a_agent = this1, a_limiter = None, a_startTime = None \<rparr>"
  unfolding addRequest_def Let_def using assms by simp

lemma addRequest_accepted:
  assumes "\<not> checkBeforeRequest this"
    and "priv_canAcceptRequest RL this now (getName this nfo)
           (getFlag this (case uri nfo of Some h \<Rightarrow> h | None \<Rightarrow> [])) False = (True, this1)"
    and "priv_getLimiter RL this1 now (getName this nfo)
           (getFlag this (case uri nfo of Some h \<Rightarrow> h | None \<Rightarrow> [])) = (l, this2)"
  shows "addRequest RL this now request nfo =
     \<lparr> forwarded = True,
       a_request = (case timeout nfo of
                      None \<Rightarrow> request
                    | Some t \<Rightarrow> if t = 0 then request else request\<lparr> agentTimeout := Some t \<rparr>),
       a_agent = this2, a_limiter = Some l, a_startTime = Some now \<rparr>"
  unfolding addRequest_def Let_def using assms by simp

lemma s3Agent_fields:
  "requests (s3Agent n) ''h:80:'' = Some (replicate n pendingRequest)"
  "maxPending (s3Agent n) = 3"
  "rateLimiters (s3Agent n) = Map.empty"
  "getRate (s3Agent n) = (\<lambda>_ _. 1000000)"
  "rateInterval (s3Agent n) = 1000"
  "checkBeforeRequest (s3Agent n) = False"
  "getFlag (s3Agent n) = (\<lambda>_. [])"
  "getName (s3Agent n) = endpoint"
  by (simp_all add: s3Agent_def constructor_def Let_def noOptions_def numberOr_def callbackOr_def
        orElse_def consts_defs httpAgent.defs agent.defs freeBase_def)


lemma s3Agent_rejects:
  "priv_canAcceptRequest (specRateLimiter halfSmooth) (s3Agent 3) 0 (getName (s3Agent 3) plainInfo)
      (getFlag (s3Agent 3) (case uri plainInfo of Some h \<Rightarrow> h | None \<Rightarrow> [])) False
     = (False, store (''h:80:'' @ []) (countRejected False freshLimiter) (s3Agent 3))"
proof -
  let ?S = "specRateLimiter halfSmooth"
  have fresh: "freshLimiter = fst (priv_getLimiter ?S (s3Agent 3) 0 ''h:80:'' [])"
    by (subst getLimiter_create [OF _ refl])
       (simp_all add: s3Agent_fields spec_created orElse_def MAX_RATE_def freshLimiter_def)
  have "priv_canAcceptRequest ?S (s3Agent 3) 0 ''h:80:'' [] False
          = (False, store (''h:80:'' @ []) (countRejected False freshLimiter) (s3Agent 3))"
    unfolding canAcceptRequest_cases [OF fresh] by (simp add: s3Agent_fields)
  then show ?thesis
    by (simp add: s3Agent_fields plainInfo_def)
qed


text \<open>
  The rest of the guard \<open>errorListeners && errorListeners.length\<close>: of a single
  listener it reads the number of declared parameters, so a request whose only error
  listener declares none (\<open>() => {}\<close>) is aborted without an error, and one whose
  listener declares a parameter gets the error.
\<close>

lemma addRequest_sole_listener:
  "forwarded (rejectedWith (OneListener 0)) = False
   \<and> aborted (a_request (rejectedWith (OneListener 0))) = True
   \<and> emitted (a_request (rejectedWith (OneListener 0))) = []
   \<and> emitted (a_request (rejectedWith (OneListener 1))) = [tooManyRequests]"
proof -
  have nc: "\<not> checkBeforeRequest (s3Agent 3)"
    by (simp add: s3Agent_fields)
  show ?thesis
    unfolding rejectedWith_def addRequest_rejected [OF nc s3Agent_rejects]
    by (simp add: pendingRequest_def tooManyRequests_def)
qed

lemma calls_handleEvent:
  "t_calls (handleEvent RL st this now ev t)
     = t_calls t @ (case ev of Response sc \<Rightarrow> [Status sc] | Error ec \<Rightarrow> [ec] | Abort \<Rightarrow> [])"
  by (cases ev) simp_all

lemma calls_deliver:
  "t_calls (deliver RL st evs t)
     = t_calls t @ concat (map (\<lambda>(this, now, ev).
         case ev of Response sc \<Rightarrow> [Status sc] | Error ec \<Rightarrow> [ec] | Abort \<Rightarrow> []) evs)"
proof (induction evs arbitrary: t)
  case Nil
  show ?case by simp
next
  case (Cons e evs)
  obtain this now ev where e: "e = (this, now, ev)"
    by (cases e) auto
  show ?case
    unfolding e by (simp add: Cons.IH calls_handleEvent)
qed

text \<open>
  C2 (as amended). For a forwarded request the calls of \<open>_changeRate\<close> are, in order,
  one per \<open>response\<close> event with its status code and one per \<open>error\<close> event with the
  code of the error; an \<open>abort\<close> event makes none. A single response or error
  notifies once, a single abort not at all, and a timeout abort that arrives as
  \<open>abort\<close> and then \<open>error\<close> notifies once, with the code of the error.
\<close>

theorem feedback_once_per_response_or_error:
  "t_calls (deliver RL st evs t)
     = t_calls t @ concat (map (\<lambda>(this, now, ev).
         case ev of Response sc \<Rightarrow> [Status sc] | Error ec \<Rightarrow> [ec] | Abort \<Rightarrow> []) evs)
   \<and> t_calls (deliver RL st [(a1, n1, Response sc)] t) = t_calls t @ [Status sc]
   \<and> t_calls (deliver RL st [(a1, n1, Error ec)] t) = t_calls t @ [ec]
   \<and> t_calls (deliver RL st [(a1, n1, Abort)] t) = t_calls t
   \<and> t_calls (deliver RL st [(a1, n1, Abort), (a2, n2, Error ec)] t) = t_calls t @ [ec]"
  by (simp add: calls_deliver)

theorem feedback_once_per_response_or_error_witness:
  "t_calls (deliver (specRateLimiter halfSmooth) 0
      [(a_agent submitted, 500, Abort), (a_agent submitted, 501, Error (ErrCode ''ECONNRESET''))]
      submittedTracked)
     = [ErrCode ''ECONNRESET'']"
proof -
  have "t_calls submittedTracked = []"
    by (simp add: submittedTracked_def)
  with feedback_once_per_response_or_error [of "specRateLimiter halfSmooth" 0
      "[(a_agent submitted, 500, Abort), (a_agent submitted, 501, Error (ErrCode ''ECONNRESET''))]"
      submittedTracked]
  show ?thesis by simp
qed

text \<open>
  C2 as stated fails: a forwarded request that only aborts notifies the feedback not
  at all (not once with \<open>undefined\<close>), and one that emits a response and later an error
  notifies it twice.
\<close>

theorem abort_gives_no_feedback:
  "forwarded submitted = True
   \<and> t_calls (deliver (specRateLimiter halfSmooth) 0 [(a_agent submitted, 500, Abort)] submittedTracked)
       = []
   \<and> t_calls (deliver (specRateLimiter halfSmooth) 0
        [(a_agent submitted, 40, Response 200), (a_agent submitted, 90, Error (ErrCode ''ECONNRESET''))]
        submittedTracked)
       = [Status 200, ErrCode ''ECONNRESET'']"
proof -
  let ?S = "specRateLimiter halfSmooth"
  have nc: "\<not> checkBeforeRequest (agentWithRate 100)"
    by (simp add: agentWithRate_fields)
  have nf: "getName (agentWithRate 100) plainInfo = ''h:80:''"
    "getFlag (agentWithRate 100) (case uri plainInfo of Some h \<Rightarrow> h | None \<Rightarrow> []) = []"
    by (simp_all add: agentWithRate_def constructor_def Let_def noOptions_def callbackOr_def
          plainInfo_def freeBase_def httpAgent.defs agent.defs)
  have ok: "fst (priv_canAcceptRequest ?S (agentWithRate 100) 0 ''h:80:'' [] False) = True"
    by (rule fresh_endpoint_accepted) (simp_all add: agentWithRate_fields orElse_def)
  have "forwarded submitted = True"
    unfolding submitted_def
    by (subst addRequest_accepted [OF nc, where ?this1.0 = "snd (priv_canAcceptRequest ?S (agentWithRate 100) 0 ''h:80:'' [] False)"
          and l = "fst (priv_getLimiter ?S (snd (priv_canAcceptRequest ?S (agentWithRate 100) 0 ''h:80:'' [] False)) 0 ''h:80:'' [])"
          and ?this2.0 = "snd (priv_getLimiter ?S (snd (priv_canAcceptRequest ?S (agentWithRate 100) 0 ''h:80:'' [] False)) 0 ''h:80:'' [])"])
       (simp_all add: nf prod_eq_iff ok)
  moreover have "t_calls submittedTracked = []"
    by (simp add: submittedTracked_def)
  ultimately show ?thesis
    by (simp add: calls_deliver)
qed

end
